theory Spec2Isabelle
  imports Main
begin

section \<open>JavaScript strings\<close>

text \<open>
  Strings are lists of 8-bit characters. The stream protocol (delimiters, the
  \<open>data:\<close> prefix, the \<open>[DONE]\<close> sentinel, JSON syntax) is ASCII, and the model
  covers ASCII text: \<open>trim\<close> strips the ASCII members of JavaScript's white space and
  line terminators, \<open>toUpperCase\<close> maps the ASCII letters only, and every other
  character is opaque payload.
\<close>

abbreviation LF :: char where "LF \<equiv> CHR 0x0A"
abbreviation CR :: char where "CR \<equiv> CHR 0x0D"
abbreviation DQ :: char where "DQ \<equiv> CHR 0x22"
abbreviation BS :: char where "BS \<equiv> CHR 0x5C"

text \<open>The two frame delimiters, \<open>'\n\n'\<close> and \<open>'\r\n\r\n'\<close>.\<close>

abbreviation LFLF :: string where "LFLF \<equiv> [LF, LF]"
abbreviation CRLFCRLF :: string where "CRLFCRLF \<equiv> [CR, LF, CR, LF]"

definition isWhiteSpace :: "char \<Rightarrow> bool" where
  "isWhiteSpace c = (c \<in> set [CHR 0x09, CHR 0x0A, CHR 0x0B, CHR 0x0C, CHR 0x0D, CHR 0x20])"

text \<open>\<open>s.trim()\<close>\<close>

definition trim :: "string \<Rightarrow> string" where
  "trim s = rev (dropWhile isWhiteSpace (rev (dropWhile isWhiteSpace s)))"

text \<open>\<open>s.startsWith(p)\<close>\<close>

fun startsWith :: "string \<Rightarrow> string \<Rightarrow> bool" where
  "startsWith s [] = True"
| "startsWith [] (p # ps) = False"
| "startsWith (c # cs) (p # ps) = (c = p \<and> startsWith cs ps)"

text \<open>\<open>s.indexOf(p)\<close>: the least index at which \<open>p\<close> occurs; \<open>None\<close> is JavaScript's \<open>-1\<close>.\<close>

fun indexOf :: "string \<Rightarrow> string \<Rightarrow> nat option" where
  "indexOf [] p = (if p = [] then Some 0 else None)"
| "indexOf (c # cs) p =
     (if startsWith (c # cs) p then Some 0 else map_option Suc (indexOf cs p))"

text \<open>
  \<open>s.substring(0, b)\<close> is \<open>take b s\<close> and \<open>s.substring(e)\<close> is \<open>drop e s\<close>: indices are
  naturals here, and both clamp at the length as \<open>substring\<close> does.
\<close>

definition toUpperCase_char :: "char \<Rightarrow> char" where
  "toUpperCase_char c =
     (let n = (of_char c :: nat) in if 97 \<le> n \<and> n \<le> 122 then char_of (n - 32) else c)"

definition toUpperCase :: "string \<Rightarrow> string" where
  "toUpperCase s = map toUpperCase_char s"

text \<open>The decimal numeral of a clock reading, as a template literal prints \<open>Date.now()\<close>.\<close>

fun toDecimal :: "nat \<Rightarrow> string \<Rightarrow> string" where
  "toDecimal n digits =
     (if n < 10 then char_of (48 + n) # digits
      else toDecimal (n div 10) (char_of (48 + n mod 10) # digits))"

declare toDecimal.simps [simp del]

definition string_of_nat :: "nat \<Rightarrow> string" where
  "string_of_nat n = toDecimal n []"

text \<open>\<open>v || dflt\<close> on an optional string: \<open>undefined\<close> and the empty string are falsy.\<close>

fun or_default :: "string option \<Rightarrow> string \<Rightarrow> string" where
  "or_default None d = d"
| "or_default (Some s) d = (if s = [] then d else s)"

section \<open>The conversation state store (\<open>chatReducer\<close>)\<close>

datatype Role = User | Assistant

text \<open>
  \<open>interface Message\<close>. The field \<open>id\<close> is \<open>msg_id\<close> here and the optional flag
  \<open>isLoading\<close> is \<open>msg_isLoading\<close> (the store has an \<open>isLoading\<close> of its own); an
  optional field that is absent (\<open>undefined\<close>) is \<open>None\<close>. The object \<open>messages\<close> is
  a map from ids to messages; an id is taken not to be the name of a member that
  every JavaScript object inherits (such as \<open>constructor\<close>), for which a lookup in
  an object differs from a lookup in a map.
\<close>

record Message =
  msg_id :: string
  role :: Role
  content :: string
  agentName :: "string option"
  msg_isLoading :: "bool option"

record ChatState =
  messages :: "string \<rightharpoonup> Message"
  messageOrder :: "string list"
  isLoading :: bool
  loadingMessageId :: "string option"
  currentAssistantMessageId :: "string option"

datatype ChatAction =
    START_ASSISTANT_MESSAGE string "string option"
  | APPEND_DELTA string string
  | UPDATE_ASSISTANT_JSON_CONTENT string string bool "string option"
  | UPDATE_AGENT_NAME string string
  | COMPLETE_ASSISTANT_MESSAGE string
  | ADD_USER_MESSAGE Message
  | SET_ERROR string
  | RESET_CHAT

definition initialState :: ChatState where
  "initialState =
     \<lparr>messages = Map.empty, messageOrder = [], isLoading = False,
      loadingMessageId = None, currentAssistantMessageId = None\<rparr>"

text \<open>
  The reducer reads the clock in its \<open>SET_ERROR\<close> case (\<open>Date.now()\<close>); the reading
  is the first argument.
\<close>

fun chatReducer :: "nat \<Rightarrow> ChatState \<Rightarrow> ChatAction \<Rightarrow> ChatState" where
  "chatReducer now state (ADD_USER_MESSAGE m) =
     state\<lparr>isLoading := True,
           messages := (messages state)(msg_id m \<mapsto> m),
           messageOrder := messageOrder state @ [msg_id m]\<rparr>"
| "chatReducer now state (START_ASSISTANT_MESSAGE i name) =
     (let newMessage = \<lparr>msg_id = i, role = Assistant, content = [],
                         agentName = Some (or_default name ''Assistant''),
                         msg_isLoading = Some True\<rparr>
      in state\<lparr>currentAssistantMessageId := Some i,
               loadingMessageId := Some i,
               messages := (messages state)(i \<mapsto> newMessage),
               messageOrder := messageOrder state @ [i]\<rparr>)"
| "chatReducer now state (APPEND_DELTA i delta) =
     (case messages state i of
        None \<Rightarrow> state
      | Some msgToAppend \<Rightarrow>
          if loadingMessageId state \<noteq> Some i then state
          else state\<lparr>messages := (messages state)
                 (i \<mapsto> msgToAppend\<lparr>content := content msgToAppend @ delta\<rparr>)\<rparr>)"
| "chatReducer now state (UPDATE_ASSISTANT_JSON_CONTENT i agentResponseText done passOff) =
     (case messages state i of
        None \<Rightarrow> state
      | Some msgToUpdate \<Rightarrow>
          state\<lparr>messages := (messages state)
            (i \<mapsto> msgToUpdate\<lparr>content := agentResponseText\<rparr>)\<rparr>)"
| "chatReducer now state (UPDATE_AGENT_NAME i name) =
     (case messages state i of
        None \<Rightarrow> state
      | Some msgToUpdateAgent \<Rightarrow>
          if loadingMessageId state \<noteq> Some i then state
          else state\<lparr>messages := (messages state)
                 (i \<mapsto> msgToUpdateAgent\<lparr>agentName := Some name\<rparr>)\<rparr>)"
| "chatReducer now state (COMPLETE_ASSISTANT_MESSAGE i) =
     (if loadingMessageId state \<noteq> Some i \<and> currentAssistantMessageId state \<noteq> Some i
      then state
      else let updatedMessages =
                 (case messages state i of
                    Some completedMsg \<Rightarrow>
                      (messages state)(i \<mapsto> completedMsg\<lparr>msg_isLoading := Some False\<rparr>)
                  | None \<Rightarrow> messages state)
           in state\<lparr>messages := updatedMessages,
                    isLoading := False,
                    loadingMessageId := None,
                    currentAssistantMessageId := None\<rparr>)"
| "chatReducer now state (SET_ERROR errorContent) =
     (let errorId = ''error-'' @ string_of_nat now;
          errorMessage = \<lparr>msg_id = errorId, role = Assistant,
                           content = ''Error: '' @ errorContent,
                           agentName = Some ''System Error'',
                           msg_isLoading = None\<rparr>
      in state\<lparr>isLoading := False,
               loadingMessageId := None,
               currentAssistantMessageId := None,
               messages := (messages state)(errorId \<mapsto> errorMessage),
               messageOrder := messageOrder state @ [errorId]\<rparr>)"
| "chatReducer now state RESET_CHAT = initialState"

text \<open>
  Dispatching a sequence of actions, each reduced at its own clock reading, in order.
\<close>

fun dispatchAll :: "ChatState \<Rightarrow> (nat \<times> ChatAction) list \<Rightarrow> ChatState" where
  "dispatchAll state [] = state"
| "dispatchAll state ((now, a) # rest) = dispatchAll (chatReducer now state a) rest"

section \<open>\<open>JSON.parse\<close> and property access\<close>

text \<open>
  The platform's \<open>JSON.parse\<close>, modelled on the JSON grammar. A number keeps its
  lexeme (its floating-point value is not modelled). \<open>Unsupported\<close> marks what the
  model leaves out: a \<open>\u\<close> escape in a string (its result is a UTF-16 code unit)
  and exhausted fuel.
\<close>

datatype json =
    JNull
  | JBool bool
  | JNumber string
  | JString string
  | JArray "json list"
  | JObject "(string \<times> json) list"

datatype 'a parsed = SyntaxError | Unsupported | Parsed 'a

definition isJsonSpace :: "char \<Rightarrow> bool" where
  "isJsonSpace c = (c \<in> set [CHR 0x20, CHR 0x09, CHR 0x0A, CHR 0x0D])"

definition skip_ws :: "string \<Rightarrow> string" where
  "skip_ws s = dropWhile isJsonSpace s"

definition isDigit :: "char \<Rightarrow> bool" where
  "isDigit c = (let n = (of_char c :: nat) in 48 \<le> n \<and> n \<le> 57)"

definition unescape :: "char \<Rightarrow> char option" where
  "unescape e =
     (if e = DQ then Some DQ
      else if e = BS then Some BS
      else if e = CHR ''/'' then Some (CHR ''/'')
      else if e = CHR ''b'' then Some (CHR 0x08)
      else if e = CHR ''f'' then Some (CHR 0x0C)
      else if e = CHR ''n'' then Some LF
      else if e = CHR ''r'' then Some CR
      else if e = CHR ''t'' then Some (CHR 0x09)
      else None)"

text \<open>The characters of a string literal after its opening quote, and the rest.\<close>

fun parse_string_body :: "string \<Rightarrow> (string \<times> string) parsed" where
  "parse_string_body [] = SyntaxError"
| "parse_string_body [c] = (if c = DQ then Parsed ([], []) else SyntaxError)"
| "parse_string_body (c # e # cs) =
     (if c = DQ then Parsed ([], e # cs)
      else if c = BS then
        (if e = CHR ''u'' then Unsupported
         else case unescape e of
                None \<Rightarrow> SyntaxError
              | Some ch \<Rightarrow>
                  (case parse_string_body cs of
                     Parsed (str, rest) \<Rightarrow> Parsed (ch # str, rest)
                   | SyntaxError \<Rightarrow> SyntaxError
                   | Unsupported \<Rightarrow> Unsupported))
      else if (of_char c :: nat) < 32 then SyntaxError
      else case parse_string_body (e # cs) of
             Parsed (str, rest) \<Rightarrow> Parsed (c # str, rest)
           | SyntaxError \<Rightarrow> SyntaxError
           | Unsupported \<Rightarrow> Unsupported)"

text \<open>
  A number lexeme: \<open>-? (0 | [1-9][0-9]*) (. [0-9]+)? ([eE] [+-]? [0-9]+)?\<close>.
\<close>

definition parse_digits :: "string \<Rightarrow> (string \<times> string) option" where
  "parse_digits s =
     (let ds = takeWhile isDigit s in if ds = [] then None else Some (ds, dropWhile isDigit s))"

definition parse_int_part :: "string \<Rightarrow> (string \<times> string) option" where
  "parse_int_part s =
     (case s of
        [] \<Rightarrow> None
      | c # cs \<Rightarrow> if c = CHR ''0'' then Some ([c], cs) else parse_digits s)"

definition parse_frac_part :: "string \<Rightarrow> (string \<times> string) option" where
  "parse_frac_part s =
     (case s of
        [] \<Rightarrow> Some ([], [])
      | c # cs \<Rightarrow>
          if c = CHR ''.'' then
            (case parse_digits cs of None \<Rightarrow> None | Some (ds, r) \<Rightarrow> Some (c # ds, r))
          else Some ([], s))"

definition parse_exp_part :: "string \<Rightarrow> (string \<times> string) option" where
  "parse_exp_part s =
     (case s of
        [] \<Rightarrow> Some ([], [])
      | c # cs \<Rightarrow>
          if c = CHR ''e'' \<or> c = CHR ''E'' then
            (case cs of
               [] \<Rightarrow> None
             | d # ds \<Rightarrow>
                 if d = CHR ''+'' \<or> d = CHR ''-'' then
                   (case parse_digits ds of
                      None \<Rightarrow> None
                    | Some (xs, r) \<Rightarrow> Some (c # d # xs, r))
                 else
                   (case parse_digits cs of
                      None \<Rightarrow> None
                    | Some (xs, r) \<Rightarrow> Some (c # xs, r)))
          else Some ([], s))"

definition parse_number :: "string \<Rightarrow> (string \<times> string) option" where
  "parse_number s =
     (let (sign, s1) = (case s of
                          [] \<Rightarrow> ([], [])
                        | c # cs \<Rightarrow> if c = CHR ''-'' then ([c], cs) else ([], s))
      in case parse_int_part s1 of
           None \<Rightarrow> None
         | Some (ip, s2) \<Rightarrow>
             (case parse_frac_part s2 of
                None \<Rightarrow> None
              | Some (fp, s3) \<Rightarrow>
                  (case parse_exp_part s3 of
                     None \<Rightarrow> None
                   | Some (ep, s4) \<Rightarrow> Some (sign @ ip @ fp @ ep, s4))))"

text \<open>
  Values, array elements (after \<open>[\<close>) and object members (after \<open>{\<close>), on fuel.
\<close>

fun parse_value :: "nat \<Rightarrow> string \<Rightarrow> (json \<times> string) parsed"
  and parse_elements :: "nat \<Rightarrow> string \<Rightarrow> (json list \<times> string) parsed"
  and parse_members :: "nat \<Rightarrow> string \<Rightarrow> ((string \<times> json) list \<times> string) parsed"
where
  "parse_value 0 s = Unsupported"
| "parse_value (Suc n) s =
     (case skip_ws s of
        [] \<Rightarrow> SyntaxError
      | c # cs \<Rightarrow>
          if c = CHR ''{'' then
            (case skip_ws cs of
               [] \<Rightarrow> SyntaxError
             | d # ds \<Rightarrow>
                 if d = CHR ''}'' then Parsed (JObject [], ds)
                 else (case parse_members n (d # ds) of
                         Parsed (kvs, rest) \<Rightarrow> Parsed (JObject kvs, rest)
                       | SyntaxError \<Rightarrow> SyntaxError
                       | Unsupported \<Rightarrow> Unsupported))
          else if c = CHR ''['' then
            (case skip_ws cs of
               [] \<Rightarrow> SyntaxError
             | d # ds \<Rightarrow>
                 if d = CHR '']'' then Parsed (JArray [], ds)
                 else (case parse_elements n (d # ds) of
                         Parsed (vs, rest) \<Rightarrow> Parsed (JArray vs, rest)
                       | SyntaxError \<Rightarrow> SyntaxError
                       | Unsupported \<Rightarrow> Unsupported))
          else if c = DQ then
            (case parse_string_body cs of
               Parsed (str, rest) \<Rightarrow> Parsed (JString str, rest)
             | SyntaxError \<Rightarrow> SyntaxError
             | Unsupported \<Rightarrow> Unsupported)
          else if startsWith (c # cs) ''true'' then Parsed (JBool True, drop 4 (c # cs))
          else if startsWith (c # cs) ''false'' then Parsed (JBool False, drop 5 (c # cs))
          else if startsWith (c # cs) ''null'' then Parsed (JNull, drop 4 (c # cs))
          else (case parse_number (c # cs) of
                  None \<Rightarrow> SyntaxError
                | Some (lexeme, rest) \<Rightarrow> Parsed (JNumber lexeme, rest)))"
| "parse_elements 0 s = Unsupported"
| "parse_elements (Suc n) s =
     (case parse_value n s of
        SyntaxError \<Rightarrow> SyntaxError
      | Unsupported \<Rightarrow> Unsupported
      | Parsed (v, r) \<Rightarrow>
          (case skip_ws r of
             [] \<Rightarrow> SyntaxError
           | c # cs \<Rightarrow>
               if c = CHR '']'' then Parsed ([v], cs)
               else if c = CHR '','' then
                 (case parse_elements n cs of
                    Parsed (vs, rest) \<Rightarrow> Parsed (v # vs, rest)
                  | SyntaxError \<Rightarrow> SyntaxError
                  | Unsupported \<Rightarrow> Unsupported)
               else SyntaxError))"
| "parse_members 0 s = Unsupported"
| "parse_members (Suc n) s =
     (case skip_ws s of
        [] \<Rightarrow> SyntaxError
      | q # qs \<Rightarrow>
          if q \<noteq> DQ then SyntaxError
          else
            (case parse_string_body qs of
               SyntaxError \<Rightarrow> SyntaxError
             | Unsupported \<Rightarrow> Unsupported
             | Parsed (k, r) \<Rightarrow>
                 (case skip_ws r of
                    [] \<Rightarrow> SyntaxError
                  | c # cs \<Rightarrow>
                      if c \<noteq> CHR '':'' then SyntaxError
                      else
                        (case parse_value n cs of
                           SyntaxError \<Rightarrow> SyntaxError
                         | Unsupported \<Rightarrow> Unsupported
                         | Parsed (v, r') \<Rightarrow>
                             (case skip_ws r' of
                                [] \<Rightarrow> SyntaxError
                              | e # es \<Rightarrow>
                                  if e = CHR ''}'' then Parsed ([(k, v)], es)
                                  else if e = CHR '','' then
                                    (case parse_members n es of
                                       Parsed (kvs, rest) \<Rightarrow> Parsed ((k, v) # kvs, rest)
                                     | SyntaxError \<Rightarrow> SyntaxError
                                     | Unsupported \<Rightarrow> Unsupported)
                                  else SyntaxError)))))"

definition JSON_parse :: "string \<Rightarrow> json parsed" where
  "JSON_parse s =
     (case parse_value (2 * length s + 2) s of
        SyntaxError \<Rightarrow> SyntaxError
      | Unsupported \<Rightarrow> Unsupported
      | Parsed (v, rest) \<Rightarrow> if skip_ws rest = [] then Parsed v else SyntaxError)"

text \<open>
  \<open>v.k\<close> on a value that is not \<open>null\<close>: an object yields its member (the last
  one of that name, as \<open>JSON.parse\<close> keeps it), anything else \<open>undefined\<close>, which
  is \<open>None\<close>. None of the names the controller reads is a built-in property of an
  array or a string. Reading a property of \<open>null\<close> or \<open>undefined\<close> throws; the
  callers below test for that first.
\<close>

fun field :: "json \<Rightarrow> string \<Rightarrow> json option" where
  "field (JObject kvs) k = map_of (rev kvs) k"
| "field v k = None"

text \<open>\<open>v?.k\<close> on an optional value.\<close>

fun opt_field :: "json option \<Rightarrow> string \<Rightarrow> json option" where
  "opt_field None k = None"
| "opt_field (Some JNull) k = None"
| "opt_field (Some v) k = field v k"

text \<open>\<open>v\<close> is \<open>null\<close> or \<open>undefined\<close>, so that \<open>v.k\<close> throws a \<open>TypeError\<close>.\<close>

fun nullish :: "json option \<Rightarrow> bool" where
  "nullish None = True"
| "nullish (Some JNull) = True"
| "nullish (Some v) = False"

text \<open>
  A value in a position that the controller tests for truth and then uses as a
  string: falsy (\<open>undefined\<close>, \<open>null\<close>, \<open>false\<close>, the empty string), a non-empty
  string, or anything else. The last lies outside the declared payload types and
  is not modelled further.
\<close>

datatype strval = Falsy | Str string | NotString

fun classify :: "json option \<Rightarrow> strval" where
  "classify None = Falsy"
| "classify (Some JNull) = Falsy"
| "classify (Some (JBool b)) = (if b then NotString else Falsy)"
| "classify (Some (JString s)) = (if s = [] then Falsy else Str s)"
| "classify (Some v) = NotString"

section \<open>The stream session controller (\<open>handleSendMessage\<close>)\<close>

text \<open>
  The locals and refs the read loop threads through a stream: the local
  \<open>activeMessageId\<close> and the ref \<open>currentAssistantJsonBuffer\<close>.
\<close>

record StreamRefs =
  activeMessageId :: string
  currentAssistantJsonBuffer :: string

text \<open>
  What handling one frame yields: the refs, the actions dispatched in order,
  whether the frame loop was left by \<open>break\<close>, and whether the outer \<open>catch\<close> ran
  (it logs the frame as one that failed to parse). \<open>None\<close>: the payload lies outside
  the declared types (or outside the JSON model), and the model says nothing.
\<close>

type_synonym handled = "(StreamRefs \<times> ChatAction list \<times> bool \<times> bool) option"

text \<open>
  The attempt, after a delta and on completion, to read \<open>agent_response_text\<close> from
  the accumulated buffer: the \<open>UPDATE_ASSISTANT_JSON_CONTENT\<close> dispatched, if any.
  A buffer that does not parse, parses to \<open>null\<close> (the property read throws inside
  the \<open>try\<close>) or has no such member dispatches nothing.
\<close>

definition tryExtract :: "string \<Rightarrow> string \<Rightarrow> ChatAction list option" where
  "tryExtract activeId buffer =
     (case JSON_parse buffer of
        SyntaxError \<Rightarrow> Some []
      | Unsupported \<Rightarrow> None
      | Parsed parsedBuffer \<Rightarrow>
          if parsedBuffer = JNull then Some []
          else
            (case field parsedBuffer ''agent_response_text'' of
               None \<Rightarrow> Some []
             | Some (JString agentResponseText) \<Rightarrow>
                 (case (field parsedBuffer ''overall_task_complete'',
                        classify (field parsedBuffer ''pass_off_to_agent'')) of
                    (_, NotString) \<Rightarrow> None
                  | (Some (JBool True), passOff) \<Rightarrow>
                      Some [UPDATE_ASSISTANT_JSON_CONTENT activeId agentResponseText True
                              (case passOff of Str a \<Rightarrow> Some a | _ \<Rightarrow> None)]
                  | (overall, passOff) \<Rightarrow>
                      if classify overall = Falsy then
                        Some [UPDATE_ASSISTANT_JSON_CONTENT activeId agentResponseText False
                                (case passOff of Str a \<Rightarrow> Some a | _ \<Rightarrow> None)]
                      else None)
             | Some _ \<Rightarrow> None))"

text \<open>
  A value interpolated into a template literal; numbers, arrays and objects are not
  modelled.
\<close>

fun template :: "json option \<Rightarrow> string option" where
  "template None = Some ''undefined''"
| "template (Some JNull) = Some ''null''"
| "template (Some (JBool b)) = Some (if b then ''true'' else ''false'')"
| "template (Some (JString s)) = Some s"
| "template (Some v) = None"

fun concat_opts :: "string option list \<Rightarrow> string option" where
  "concat_opts [] = Some []"
| "concat_opts (None # xs) = None"
| "concat_opts (Some x # xs) = map_option ((@) x) (concat_opts xs)"

text \<open>The text shown for a \<open>code_validation_result\<close> event with payload \<open>d\<close>.\<close>

definition validationText :: "json option \<Rightarrow> string option" where
  "validationText d =
     (let status = opt_field d ''status'' in
      if status = Some (JString ''invalid'') \<and> classify (opt_field d ''display_message'') \<noteq> Falsy
      then (case classify (opt_field d ''display_message'') of
              Str m \<Rightarrow> Some m
            | _ \<Rightarrow> None)
      else if status = Some (JString ''valid'') then
        (case d of
           None \<Rightarrow> None
         | Some dv \<Rightarrow>
             (let details = field dv ''details'';
                  head = [Some ''Code: '', template (field dv ''raw_code''),
                          Some '' - Status: '', template (field dv ''status''), Some ''.'']
              in case details of
                   Some (JObject kvs) \<Rightarrow>
                     concat_opts (head @
                       [Some '' Type: '', template (field (JObject kvs) ''code_type''),
                        Some '', Team: '', template (field (JObject kvs) ''team_name''),
                        Some '', Age: u'', template (field (JObject kvs) ''age_group''),
                        Some '', Season: '',
                        template (field (JObject kvs) ''season_start_year''),
                        Some ''-'', template (field (JObject kvs) ''season_end_year''),
                        Some ''.''])
                 | _ \<Rightarrow> if classify details = Falsy then concat_opts head else None))
      else if status = Some (JString ''invalid'') \<and> classify (opt_field d ''reason'') \<noteq> Falsy
      then (case d of
              None \<Rightarrow> None
            | Some dv \<Rightarrow>
                concat_opts [Some ''Code: '', template (field dv ''raw_code''),
                             Some '' - Status: invalid. Reason: '',
                             template (field dv ''reason''), Some ''.''])
      else Some ''Code validation result received.'')"

text \<open>
  The body of the \<open>try\<close> for one parsed event. A \<open>TypeError\<close> (a property read on
  \<open>null\<close> or \<open>undefined\<close>) lands in the \<open>catch\<close>, which only logs: what was done
  before it stays done.
\<close>

definition handleParsedEvent :: "StreamRefs \<Rightarrow> json \<Rightarrow> handled" where
  "handleParsedEvent refs parsedEvent =
     (if parsedEvent = JNull then Some (refs, [], False, True)
      else
        let event_type = field parsedEvent ''event_type'';
            d = field parsedEvent ''data'';
            activeId = activeMessageId refs
        in
        if event_type = Some (JString ''START_ASSISTANT_MESSAGE'') then
          (if nullish d then Some (refs, [], False, True)
           else case (opt_field d ''id'', classify (opt_field d ''agent_name'')) of
                  (Some (JString i), Falsy) \<Rightarrow>
                    Some (\<lparr>activeMessageId = i, currentAssistantJsonBuffer = []\<rparr>,
                          [START_ASSISTANT_MESSAGE i (Some ''Assistant'')], False, False)
                | (Some (JString i), Str name) \<Rightarrow>
                    Some (\<lparr>activeMessageId = i, currentAssistantJsonBuffer = []\<rparr>,
                          [START_ASSISTANT_MESSAGE i (Some name)], False, False)
                | _ \<Rightarrow> None)
        else if event_type = Some (JString ''RawResponsesStreamEvent'')
                \<and> classify (opt_field d ''delta'') \<noteq> Falsy then
          (case classify (opt_field d ''delta'') of
             Str delta \<Rightarrow>
               if activeId \<noteq> [] then
                 (let buffer = currentAssistantJsonBuffer refs @ delta
                  in case tryExtract activeId buffer of
                       None \<Rightarrow> None
                     | Some acts \<Rightarrow>
                         Some (refs\<lparr>currentAssistantJsonBuffer := buffer\<rparr>, acts, False, False))
               else Some (refs, [], False, False)
           | _ \<Rightarrow> None)
        else if event_type = Some (JString ''AgentUpdatedStreamEvent'')
                \<and> classify (opt_field d ''agent_name'') \<noteq> Falsy then
          (case classify (opt_field d ''agent_name'') of
             Str name \<Rightarrow>
               if activeId \<noteq> [] then
                 Some (refs, [UPDATE_AGENT_NAME activeId name], False, False)
               else Some (refs, [], False, False)
           | _ \<Rightarrow> None)
        else if event_type = Some (JString ''COMPLETE_ASSISTANT_MESSAGE'') then
          (if activeId = [] then Some (refs, [], False, False)
           else if nullish d then Some (refs, [], False, True)
           else if opt_field d ''id'' = Some (JString activeId) then
             (case tryExtract activeId (currentAssistantJsonBuffer refs) of
                None \<Rightarrow> None
              | Some acts \<Rightarrow>
                  Some (\<lparr>activeMessageId = [], currentAssistantJsonBuffer = []\<rparr>,
                        acts @ [COMPLETE_ASSISTANT_MESSAGE activeId], False, False))
           else Some (refs, [], False, False))
        else if event_type = Some (JString ''code_validation_result'') then
          (if activeId \<noteq> [] then
             (case validationText d of
                None \<Rightarrow> None
              | Some valText \<Rightarrow>
                  Some (refs, [UPDATE_ASSISTANT_JSON_CONTENT activeId valText True None],
                        False, False))
           else Some (refs, [], False, False))
        else if event_type = Some (JString ''ServerError'')
                \<or> event_type = Some (JString ''AgentErrorEvent'') then
          (case classify (opt_field d ''error'') of
             NotString \<Rightarrow> None
           | e \<Rightarrow>
               Some (refs,
                     SET_ERROR (case e of Str msg \<Rightarrow> msg | _ \<Rightarrow> ''Unknown backend error'')
                       # (if activeId \<noteq> [] then [COMPLETE_ASSISTANT_MESSAGE activeId] else []),
                     True, False))
        else Some (refs, [], False, False))"

text \<open>
  One frame: \<open>rawEventData\<close> is the trimmed text before the boundary. Only a frame
  that starts with \<open>'data: '\<close> is looked at; an empty value and the \<open>[DONE]\<close>
  sentinel are passed over before any parse; a value that does not parse lands in
  the \<open>catch\<close>.
\<close>

definition handleRawEventData :: "StreamRefs \<Rightarrow> string \<Rightarrow> handled" where
  "handleRawEventData refs rawEventData =
     (if startsWith rawEventData ''data: '' then
        (let jsonDataString = trim (drop 5 rawEventData)
         in if jsonDataString \<noteq> [] \<and> toUpperCase jsonDataString \<noteq> ''[DONE]'' then
              (case JSON_parse jsonDataString of
                 SyntaxError \<Rightarrow> Some (refs, [], False, True)
               | Unsupported \<Rightarrow> None
               | Parsed parsedEvent \<Rightarrow> handleParsedEvent refs parsedEvent)
            else Some (refs, [], False, False))
      else Some (refs, [], False, False))"

text \<open>
  The condition of the frame loop assigns \<open>boundaryIdx\<close>: the first \<open>'\n\n'\<close> if
  there is one, and only otherwise the first \<open>'\r\n\r\n'\<close>.
\<close>

definition boundaryIdx :: "string \<Rightarrow> nat option" where
  "boundaryIdx fetchBuffer =
     (case indexOf fetchBuffer LFLF of
        Some i \<Rightarrow> Some i
      | None \<Rightarrow> indexOf fetchBuffer CRLFCRLF)"

definition messageEndIdx :: "string \<Rightarrow> nat \<Rightarrow> nat" where
  "messageEndIdx fetchBuffer b = b + (if startsWith (drop b fetchBuffer) CRLFCRLF then 4 else 2)"

lemma indexOf_bound: "indexOf s p = Some i \<Longrightarrow> p \<noteq> [] \<Longrightarrow> i < length s"
  by (induction s arbitrary: i) (auto split: if_splits)

lemma boundaryIdx_bound: "boundaryIdx s = Some b \<Longrightarrow> b < length s"
  by (auto simp: boundaryIdx_def split: option.splits dest: indexOf_bound)

text \<open>
  The frame loop on the buffer: the rest of the buffer, the refs, the actions
  dispatched, and the frames (\<open>rawEventData\<close>) it cut, in order. An error event
  leaves the loop by \<open>break\<close> with the rest of the buffer unread.
\<close>

function frameLoop ::
  "string \<Rightarrow> StreamRefs \<Rightarrow> (string \<times> StreamRefs \<times> ChatAction list \<times> string list) option"
where
  "frameLoop fetchBuffer refs =
     (case boundaryIdx fetchBuffer of
        None \<Rightarrow> Some (fetchBuffer, refs, [], [])
      | Some b \<Rightarrow>
          (let rawEventData = trim (take b fetchBuffer);
               fetchBuffer' = drop (messageEndIdx fetchBuffer b) fetchBuffer
           in case handleRawEventData refs rawEventData of
                None \<Rightarrow> None
              | Some (refs', acts, brk, logged) \<Rightarrow>
                  if brk then Some (fetchBuffer', refs', acts, [rawEventData])
                  else (case frameLoop fetchBuffer' refs' of
                          None \<Rightarrow> None
                        | Some (rest, refs'', acts', frames) \<Rightarrow>
                            Some (rest, refs'', acts @ acts', rawEventData # frames))))"
  by pat_completeness auto
termination
  by (relation "measure (\<lambda>(fetchBuffer, refs). length fetchBuffer)")
     (auto simp: messageEndIdx_def dest: boundaryIdx_bound)

declare frameLoop.simps [simp del]

text \<open>
  The read loop over the chunks of the body, ended by \<open>done\<close>: each chunk is
  appended to the buffer and the frame loop runs; on \<open>done\<close> the message still
  active, if any, is completed, and the loop ends. What is left in the buffer then
  is not looked at.
\<close>

fun readLoop ::
  "string \<Rightarrow> StreamRefs \<Rightarrow> string list \<Rightarrow> (StreamRefs \<times> ChatAction list \<times> string list) option"
where
  "readLoop fetchBuffer refs [] =
     Some (refs,
           (if activeMessageId refs \<noteq> [] then [COMPLETE_ASSISTANT_MESSAGE (activeMessageId refs)]
            else []),
           [])"
| "readLoop fetchBuffer refs (chunk # chunks) =
     (case frameLoop (fetchBuffer @ chunk) refs of
        None \<Rightarrow> None
      | Some (fetchBuffer', refs', acts, frames) \<Rightarrow>
          (case readLoop fetchBuffer' refs' chunks of
             None \<Rightarrow> None
           | Some (refs'', acts', frames') \<Rightarrow> Some (refs'', acts @ acts', frames @ frames')))"

text \<open>
  \<open>handleSendMessage\<close> for a response whose body delivers \<open>chunks\<close> and then ends:
  nothing at all while the store is loading; otherwise the user's message, then the
  stream. \<open>jsonBuffer\<close> is what the ref \<open>currentAssistantJsonBuffer\<close> holds on entry.
\<close>

definition newUserMessage :: "nat \<Rightarrow> string \<Rightarrow> Message" where
  "newUserMessage now userInput =
     \<lparr>msg_id = ''user-'' @ string_of_nat now, role = User, content = userInput,
      agentName = None, msg_isLoading = None\<rparr>"

definition handleSendMessage ::
  "nat \<Rightarrow> ChatState \<Rightarrow> string \<Rightarrow> string \<Rightarrow> string list \<Rightarrow> ChatAction list option"
where
  "handleSendMessage now state jsonBuffer userInput chunks =
     (if isLoading state then Some []
      else case readLoop [] \<lparr>activeMessageId = [], currentAssistantJsonBuffer = jsonBuffer\<rparr> chunks of
             None \<Rightarrow> None
           | Some (refs, acts, frames) \<Rightarrow>
               Some (ADD_USER_MESSAGE (newUserMessage now userInput) # acts))"

section \<open>The earlier chat component (\<open>processStreamChunk\<close>, \<open>handleSubmit\<close>)\<close>

text \<open>
  The boundary \<open>processStreamChunk\<close> picks: both delimiters are searched and the
  earlier one wins; the pair is \<open>(boundaryIndex, delimiterLength)\<close>.
\<close>

definition findBoundary :: "string \<Rightarrow> (nat \<times> nat) option" where
  "findBoundary remainingBuffer =
     (case (indexOf remainingBuffer LFLF, indexOf remainingBuffer CRLFCRLF) of
        (Some newlineIndex, Some crlfIndex) \<Rightarrow>
          if newlineIndex < crlfIndex then Some (newlineIndex, 2) else Some (crlfIndex, 4)
      | (Some newlineIndex, None) \<Rightarrow> Some (newlineIndex, 2)
      | (None, Some crlfIndex) \<Rightarrow> Some (crlfIndex, 4)
      | (None, None) \<Rightarrow> None)"

lemma findBoundary_bound: "findBoundary s = Some (b, l) \<Longrightarrow> b < length s \<and> 0 < l"
  by (auto simp: findBoundary_def split: option.splits if_splits dest: indexOf_bound)

text \<open>
  \<open>processStreamChunk\<close>, as far as the frames go: the message blocks it hands on,
  in order (a block that trims to nothing is skipped), and the unprocessed rest
  of the buffer that it returns.
\<close>

function processStreamChunk :: "string \<Rightarrow> string list \<times> string" where
  "processStreamChunk remainingBuffer =
     (case findBoundary remainingBuffer of
        None \<Rightarrow> ([], remainingBuffer)
      | Some (boundaryIndex, delimiterLength) \<Rightarrow>
          (let messageBlock = trim (take boundaryIndex remainingBuffer);
               (blocks, rest) =
                 processStreamChunk (drop (boundaryIndex + delimiterLength) remainingBuffer)
           in if messageBlock = [] then (blocks, rest) else (messageBlock # blocks, rest)))"
  by pat_completeness auto
termination
  by (relation "measure length") (auto dest: findBoundary_bound)

declare processStreamChunk.simps [simp del]

text \<open>
  The read loop of \<open>handleSubmit\<close>: every chunk is appended to the buffer and the
  buffer processed; on \<open>done\<close>, a rest that does not trim to nothing is processed
  once more with \<open>'\n\n'\<close> appended.
\<close>

fun handleSubmit_blocks :: "string \<Rightarrow> string list \<Rightarrow> string list" where
  "handleSubmit_blocks buffer [] =
     (if trim buffer \<noteq> [] then fst (processStreamChunk (buffer @ LFLF)) else [])"
| "handleSubmit_blocks buffer (decodedChunk # chunks) =
     (case processStreamChunk (buffer @ decodedChunk) of
        (blocks, rest) \<Rightarrow> blocks @ handleSubmit_blocks rest chunks)"



section \<open>Scenario inputs\<close>

text \<open>
  The frames of the scenarios, each the text of one server-sent event without its
  delimiter. A backslash is written \<open>BS\<close>: the two deltas carry the JSON text
  \<open>{"agent_response_text": "Here are 3 players"}\<close> in two escaped pieces.
\<close>

definition frame_start_a1 :: string where
  \<open>frame_start_a1 = ''data: {"event_type":"START_ASSISTANT_MESSAGE","data":{"id":"a1"}}''\<close>

definition frame_start_a2 :: string where
  \<open>frame_start_a2 = ''data: {"event_type":"START_ASSISTANT_MESSAGE","data":{"id":"a2"}}''\<close>

definition frame_delta_here :: string where
  \<open>frame_delta_here =
     ''data: {"event_type":"RawResponsesStreamEvent","data":{"delta":"{'' @ [BS]
       @ ''"agent_response_text'' @ [BS] @ ''": '' @ [BS] @ ''"Here"}}''\<close>

definition frame_delta_players :: string where
  \<open>frame_delta_players =
     ''data: {"event_type":"RawResponsesStreamEvent","data":{"delta":" are 3 players''
       @ [BS] @ ''"}"}}''\<close>

definition frame_complete_a1 :: string where
  \<open>frame_complete_a1 =
     ''data: {"event_type":"COMPLETE_ASSISTANT_MESSAGE","data":{"id":"a1"}}''\<close>

definition frame_server_error :: string where
  \<open>frame_server_error = ''data: {"event_type":"ServerError","data":{"error":"boom"}}''\<close>

text \<open>The refs at the start of a stream, and a run of actions reduced at one clock reading.\<close>

definition initialRefs :: StreamRefs where
  "initialRefs = \<lparr>activeMessageId = [], currentAssistantJsonBuffer = []\<rparr>"

definition stamp :: "nat \<Rightarrow> ChatAction list \<Rightarrow> (nat \<times> ChatAction) list" where
  "stamp now acts = map (Pair now) acts"

text \<open>The parsed \<open>START_ASSISTANT_MESSAGE\<close> event for an id, without an agent name.\<close>

definition startEvent :: "string \<Rightarrow> json" where
  "startEvent i =
     JObject [(''event_type'', JString ''START_ASSISTANT_MESSAGE''),
              (''data'', JObject [(''id'', JString i)])]"


definition second_message_streaming :: ChatState where
  "second_message_streaming =
     dispatchAll initialState
       (stamp 1 [ADD_USER_MESSAGE (newUserMessage 1 ''show u9s players''),
                 START_ASSISTANT_MESSAGE ''a0'' (Some ''Assistant''),
                 COMPLETE_ASSISTANT_MESSAGE ''a0'',
                 START_ASSISTANT_MESSAGE ''a1'' (Some ''Assistant'')])"



text \<open>
  The id an action appends to \<open>messageOrder\<close>, and a run of actions in which every
  appended id is new to the order at its time.
\<close>

fun appendedId :: "nat \<Rightarrow> ChatAction \<Rightarrow> string option" where
  "appendedId now (ADD_USER_MESSAGE m) = Some (msg_id m)"
| "appendedId now (START_ASSISTANT_MESSAGE i name) = Some i"
| "appendedId now (SET_ERROR errorContent) = Some (''error-'' @ string_of_nat now)"
| "appendedId now a = None"

fun freshIds :: "ChatState \<Rightarrow> (nat \<times> ChatAction) list \<Rightarrow> bool" where
  "freshIds state [] = True"
| "freshIds state ((now, a) # rest) =
     ((case appendedId now a of None \<Rightarrow> True | Some i \<Rightarrow> i \<notin> set (messageOrder state))
      \<and> freshIds (chatReducer now state a) rest)"

section \<open>Facts about \<open>startsWith\<close> and \<open>indexOf\<close>\<close>

lemma startsWith_iff: "startsWith s p \<longleftrightarrow> (\<exists>r. s = p @ r)"
  by (induction s p rule: startsWith.induct) auto

lemma startsWith_append: "startsWith s p \<Longrightarrow> startsWith (s @ t) p"
  by (auto simp: startsWith_iff)

lemma startsWith_append_long:
  "length p \<le> length s \<Longrightarrow> startsWith (s @ t) p = startsWith s p"
  by (induction s p rule: startsWith.induct) auto

lemma startsWith_length: "startsWith s p \<Longrightarrow> length p \<le> length s"
  by (auto simp: startsWith_iff)

lemma indexOf_Some_iff:
  "indexOf s p = Some i \<longleftrightarrow>
     i \<le> length s \<and> startsWith (drop i s) p \<and> (\<forall>j<i. \<not> startsWith (drop j s) p)"
proof (induction s arbitrary: i)
  case Nil
  then show ?case by (cases p) auto
next
  case (Cons c cs)
  show ?case
  proof (cases "startsWith (c # cs) p")
    case True
    then show ?thesis by (cases i) auto
  next
    case False
    show ?thesis
    proof (cases i)
      case 0
      with False show ?thesis by auto
    next
      case (Suc k)
      have "(\<forall>j<Suc k. \<not> startsWith (drop j (c # cs)) p) \<longleftrightarrow> (\<forall>j<k. \<not> startsWith (drop j cs) p)"
        using False by (auto simp: less_Suc_eq_0_disj)
      with False Suc Cons.IH[of k] show ?thesis by auto
    qed
  qed
qed

lemma all_le_Suc_split: "(\<forall>j\<le>Suc n. P j) \<longleftrightarrow> P 0 \<and> (\<forall>j\<le>n. P (Suc j))"
proof
  assume "\<forall>j\<le>Suc n. P j"
  then show "P 0 \<and> (\<forall>j\<le>n. P (Suc j))" by auto
next
  assume h: "P 0 \<and> (\<forall>j\<le>n. P (Suc j))"
  show "\<forall>j\<le>Suc n. P j"
  proof (intro allI impI)
    fix j assume "j \<le> Suc n"
    with h show "P j" by (cases j) auto
  qed
qed

lemma indexOf_None_iff:
  "indexOf s p = None \<longleftrightarrow> (\<forall>j\<le>length s. \<not> startsWith (drop j s) p)"
proof (induction s)
  case Nil
  then show ?case by (cases p) auto
next
  case (Cons c cs)
  then show ?case by (simp add: all_le_Suc_split)
qed

lemma indexOf_fits: "indexOf s p = Some i \<Longrightarrow> i + length p \<le> length s"
  using startsWith_length[of "drop i s" p] by (auto simp: indexOf_Some_iff)

lemma indexOf_append_stable:
  assumes "indexOf a p = Some i"
  shows "indexOf (a @ b) p = Some i"
proof -
  from assms have i: "i \<le> length a" and sw: "startsWith (drop i a) p"
    and least: "\<forall>j<i. \<not> startsWith (drop j a) p"
    by (auto simp: indexOf_Some_iff)
  have fits: "i + length p \<le> length a" using assms by (rule indexOf_fits)
  have "startsWith (drop i (a @ b)) p" using sw i by (simp add: startsWith_append)
  moreover have "\<not> startsWith (drop j (a @ b)) p" if "j < i" for j
  proof -
    have "length p \<le> length (drop j a)" using fits that by simp
    then have "startsWith (drop j a @ b) p = startsWith (drop j a) p"
      by (rule startsWith_append_long)
    moreover have "drop j (a @ b) = drop j a @ b" using that i by simp
    ultimately show ?thesis using least that by simp
  qed
  ultimately show ?thesis using i by (auto simp: indexOf_Some_iff)
qed

lemma indexOf_crossing:
  assumes "indexOf a p = None" and "indexOf (a @ b) p = Some n"
  shows "length a < n + length p"
proof (rule ccontr)
  assume "\<not> length a < n + length p"
  then have fits: "n + length p \<le> length a" by simp
  then have "length p \<le> length (drop n a)" by simp
  then have "startsWith (drop n a @ b) p = startsWith (drop n a) p"
    by (rule startsWith_append_long)
  moreover have "drop n (a @ b) = drop n a @ b" using fits by simp
  moreover have "startsWith (drop n (a @ b)) p" using assms(2) by (simp add: indexOf_Some_iff)
  moreover have "\<not> startsWith (drop n a) p" using assms(1) fits by (simp add: indexOf_None_iff)
  ultimately show False by simp
qed

lemma startsWith_drop_nth:
  assumes "startsWith (drop k s) p" and "m < length p"
  shows "s ! (k + m) = p ! m"
proof -
  from assms(1) obtain r where r: "drop k s = p @ r" by (auto simp: startsWith_iff)
  with assms(2) have "k \<le> length s" by (cases "k \<le> length s") auto
  then have "s ! (k + m) = drop k s ! m" by simp
  also have "\<dots> = p ! m" using r assms(2) by (simp add: nth_append)
  finally show ?thesis .
qed



section \<open>The frame splitter\<close>

subsection \<open>\<open>processStreamChunk\<close> cuts at the earlier delimiter, whatever the chunking\<close>

lemma findBoundary_earliest:
  "indexOf s LFLF = Some n \<Longrightarrow> indexOf s CRLFCRLF = Some c \<Longrightarrow>
   findBoundary s = Some (min n c, if n < c then 2 else 4)"
  by (simp add: findBoundary_def min_def)

lemma lf_before_crlf:
  assumes n: "indexOf s LFLF = Some n" and c: "indexOf s CRLFCRLF = Some c"
    and far: "n < c + 3"
  shows "n < c"
proof (rule ccontr)
  assume "\<not> n < c"
  with far have "n = c \<or> n = c + 1 \<or> n = c + 2" by arith
  moreover from n have swn: "startsWith (drop n s) LFLF" by (simp add: indexOf_Some_iff)
  moreover from c have swc: "startsWith (drop c s) CRLFCRLF" by (simp add: indexOf_Some_iff)
  moreover have "s ! (n + 0) = LF" "s ! (n + 1) = LF"
    using startsWith_drop_nth[OF swn, of 0] startsWith_drop_nth[OF swn, of 1] by simp_all
  moreover have "s ! (c + 0) = CR" "s ! (c + 1) = LF" "s ! (c + 2) = CR" "s ! (c + 3) = LF"
    using startsWith_drop_nth[OF swc, of 0] startsWith_drop_nth[OF swc, of 1]
      startsWith_drop_nth[OF swc, of 2] startsWith_drop_nth[OF swc, of 3] by simp_all
  ultimately show False by (auto simp: add.commute)
qed

lemma findBoundary_append_stable:
  assumes "findBoundary a = Some (i, l)"
  shows "findBoundary (a @ b) = Some (i, l)"
proof (cases "indexOf a LFLF")
  case None
  with assms obtain c where c: "indexOf a CRLFCRLF = Some c" and il: "i = c" "l = 4"
    by (auto simp: findBoundary_def split: option.splits)
  have c': "indexOf (a @ b) CRLFCRLF = Some c" using c by (rule indexOf_append_stable)
  show ?thesis
  proof (cases "indexOf (a @ b) LFLF")
    case None
    with c' il show ?thesis by (simp add: findBoundary_def)
  next
    case (Some n)
    have "length a < n + length LFLF" using None Some by (rule indexOf_crossing)
    moreover have "c + length CRLFCRLF \<le> length a" using c by (rule indexOf_fits)
    ultimately have "\<not> n < c" by simp
    with Some c' il show ?thesis by (simp add: findBoundary_def)
  qed
next
  case (Some n)
  have n': "indexOf (a @ b) LFLF = Some n" using Some by (rule indexOf_append_stable)
  show ?thesis
  proof (cases "indexOf a CRLFCRLF")
    case (Some c)
    then have "indexOf (a @ b) CRLFCRLF = Some c" by (rule indexOf_append_stable)
    with n' Some \<open>indexOf a LFLF = Some n\<close> assms show ?thesis
      by (simp add: findBoundary_def)
  next
    case None
    with \<open>indexOf a LFLF = Some n\<close> assms have il: "i = n" "l = 2"
      by (auto simp: findBoundary_def)
    show ?thesis
    proof (cases "indexOf (a @ b) CRLFCRLF")
      case None
      with n' il show ?thesis by (simp add: findBoundary_def)
    next
      case (Some c)
      have "length a < c + length CRLFCRLF" using None Some by (rule indexOf_crossing)
      moreover have "n + length LFLF \<le> length a"
        using \<open>indexOf a LFLF = Some n\<close> by (rule indexOf_fits)
      ultimately have "n < c + 3" by simp
      with n' Some have "n < c" by (rule lf_before_crlf)
      with n' Some il show ?thesis by (simp add: findBoundary_def)
    qed
  qed
qed

lemma findBoundary_fits: "findBoundary s = Some (i, l) \<Longrightarrow> i + l \<le> length s"
  by (auto simp: findBoundary_def split: option.splits if_splits dest: indexOf_fits)

lemma processStreamChunk_append:
  "processStreamChunk (a @ b) =
     (case processStreamChunk a of
        (blocks, rest) \<Rightarrow>
          (case processStreamChunk (rest @ b) of
             (blocks', rest') \<Rightarrow> (blocks @ blocks', rest')))"
proof (induction a rule: processStreamChunk.induct)
  case (1 a)
  show ?case
  proof (cases "findBoundary a")
    case None
    then have "processStreamChunk a = ([], a)" by (simp add: processStreamChunk.simps)
    then show ?thesis by (simp split: prod.splits)
  next
    case (Some bl)
    obtain i l where bl: "bl = (i, l)" by (cases bl)
    have fb: "findBoundary a = Some (i, l)" using Some bl by simp
    have fb': "findBoundary (a @ b) = Some (i, l)" using fb by (rule findBoundary_append_stable)
    have fits: "i + l \<le> length a" using fb by (rule findBoundary_fits)
    have IH: "processStreamChunk (drop (i + l) a @ b) =
       (case processStreamChunk (drop (i + l) a) of
          (blocks, rest) \<Rightarrow>
            (case processStreamChunk (rest @ b) of
               (blocks', rest') \<Rightarrow> (blocks @ blocks', rest')))"
      using "1.IH"[OF fb refl refl] .
    have tk: "take i (a @ b) = take i a" and dr: "drop (i + l) (a @ b) = drop (i + l) a @ b"
      using fits by simp_all
    have ua: "processStreamChunk a =
       (case processStreamChunk (drop (i + l) a) of
          (blocks, rest) \<Rightarrow>
            if trim (take i a) = [] then (blocks, rest) else (trim (take i a) # blocks, rest))"
      by (subst processStreamChunk.simps) (simp only: fb option.case prod.case Let_def)
    have uab: "processStreamChunk (a @ b) =
       (case processStreamChunk (drop (i + l) a @ b) of
          (blocks, rest) \<Rightarrow>
            if trim (take i a) = [] then (blocks, rest) else (trim (take i a) # blocks, rest))"
      by (subst processStreamChunk.simps) (simp only: fb' option.case prod.case Let_def tk dr)
    show ?thesis
      by (simp add: ua uab IH split: prod.splits)
  qed
qed

lemma processStreamChunk_rest: "findBoundary (snd (processStreamChunk s)) = None"
proof (induction s rule: processStreamChunk.induct)
  case (1 s)
  show ?case
  proof (cases "findBoundary s")
    case None
    then show ?thesis by (simp add: processStreamChunk.simps)
  next
    case (Some bl)
    obtain i l where bl: "bl = (i, l)" by (cases bl)
    have fb: "findBoundary s = Some (i, l)" using Some bl by simp
    show ?thesis
      using "1.IH"[OF fb refl refl]
      by (subst processStreamChunk.simps) (auto simp: fb Let_def split: prod.splits)
  qed
qed

lemma handleSubmit_blocks_whole:
  "findBoundary buffer = None \<Longrightarrow>
   handleSubmit_blocks buffer chunks =
     (case processStreamChunk (buffer @ concat chunks) of
        (blocks, rest) \<Rightarrow> blocks @ handleSubmit_blocks rest [])"
proof (induction chunks arbitrary: buffer)
  case Nil
  then have "processStreamChunk buffer = ([], buffer)" by (simp add: processStreamChunk.simps)
  then show ?case by simp
next
  case (Cons c cs)
  obtain blocks rest where p: "processStreamChunk (buffer @ c) = (blocks, rest)"
    by (cases "processStreamChunk (buffer @ c)")
  have "findBoundary rest = None" using processStreamChunk_rest[of "buffer @ c"] p by simp
  from Cons.IH[OF this] p show ?case
    using processStreamChunk_append[of "buffer @ c" "concat cs"]
    by (simp split: prod.splits)
qed

lemma handleSubmit_blocks_chunk_invariant:
  "concat chunks = concat chunks' \<Longrightarrow>
   handleSubmit_blocks [] chunks = handleSubmit_blocks [] chunks'"
proof -
  have "findBoundary [] = None" by (simp add: findBoundary_def)
  then show "concat chunks = concat chunks' \<Longrightarrow>
   handleSubmit_blocks [] chunks = handleSubmit_blocks [] chunks'"
    by (simp add: handleSubmit_blocks_whole del: handleSubmit_blocks.simps)
qed

subsection \<open>\<open>handleSubmit\<close> hands on an unterminated last frame\<close>

lemma trim_append_whitespace:
  assumes "\<And>c. c \<in> set ws \<Longrightarrow> isWhiteSpace c"
  shows "trim (xs @ ws) = trim xs"
proof (cases "\<forall>x\<in>set xs. isWhiteSpace x")
  case True
  with assms have "dropWhile isWhiteSpace (xs @ ws) = []" "dropWhile isWhiteSpace xs = []"
    by (auto simp: dropWhile_eq_Nil_conv)
  then show ?thesis by (simp only: trim_def)
next
  case False
  then obtain x where "x \<in> set xs" "\<not> isWhiteSpace x" by auto
  then have "dropWhile isWhiteSpace (xs @ ws) = dropWhile isWhiteSpace xs @ ws"
    by (rule dropWhile_append1)
  moreover have "dropWhile isWhiteSpace (rev ws @ rev (dropWhile isWhiteSpace xs))
      = dropWhile isWhiteSpace (rev (dropWhile isWhiteSpace xs))"
    using assms by (intro dropWhile_append2) simp
  ultimately show ?thesis by (simp only: trim_def rev_append)
qed

lemma findBoundary_delimiter:
  "findBoundary s = Some (i, l) \<Longrightarrow>
   (l = 2 \<and> indexOf s LFLF = Some i) \<or> (l = 4 \<and> indexOf s CRLFCRLF = Some i)"
  by (auto simp: findBoundary_def split: option.splits if_splits)

lemma findBoundary_short: "length s < 2 \<Longrightarrow> findBoundary s = None"
proof (cases "findBoundary s")
  case None
  then show ?thesis by simp
next
  case (Some il)
  assume short: "length s < 2"
  obtain i l where "il = (i, l)" by (cases il)
  with Some have fb: "findBoundary s = Some (i, l)" by simp
  from findBoundary_fits[OF fb] findBoundary_delimiter[OF fb] short show ?thesis by auto
qed

lemma indexOf_found:
  assumes "startsWith (drop k s) p" and "k \<le> length s"
  shows "\<exists>n\<le>k. indexOf s p = Some n"
proof (cases "indexOf s p")
  case None
  with assms show ?thesis by (auto simp: indexOf_None_iff)
next
  case (Some n)
  then have "\<forall>j<n. \<not> startsWith (drop j s) p" by (simp add: indexOf_Some_iff)
  with assms(1) have "\<not> k < n" by auto
  with Some show ?thesis by auto
qed

lemma handleSubmit_flush:
  assumes nob: "findBoundary rest = None" and ne: "trim rest \<noteq> []"
  shows "handleSubmit_blocks rest [] = [trim rest]"
proof -
  let ?s = "rest @ LFLF"
  have "startsWith (drop (length rest) ?s) LFLF" by simp
  then obtain n where n: "n \<le> length rest" "indexOf ?s LFLF = Some n"
    using indexOf_found[of "length rest" ?s LFLF] by auto
  have "findBoundary ?s \<noteq> None"
    using n(2) by (simp add: findBoundary_def split: option.splits)
  then obtain b l where fb: "findBoundary ?s = Some (b, l)" by auto
  from findBoundary_delimiter[OF fb] obtain p where
    p: "indexOf ?s p = Some b" "length p = l" "p = LFLF \<or> p = CRLFCRLF"
    by auto
  have b_le: "b \<le> length rest"
    using fb n by (auto simp: findBoundary_def split: option.splits if_splits)
  have sw: "startsWith (drop b ?s) p" using p(1) by (simp add: indexOf_Some_iff)
  have cross: "length rest < b + l"
  proof (rule ccontr)
    assume "\<not> length rest < b + l"
    then have "length p \<le> length (drop b rest)" using p(2) by simp
    then have "startsWith (drop b rest @ LFLF) p = startsWith (drop b rest) p"
      by (rule startsWith_append_long)
    with sw b_le have "startsWith (drop b rest) p" by simp
    then obtain m where "indexOf rest p = Some m"
      using indexOf_found[of b rest p] b_le by auto
    with p(3) nob show False
      by (auto simp: findBoundary_def split: option.splits if_splits)
  qed
  have ws: "isWhiteSpace c" if "c \<in> set (drop b rest)" for c
  proof -
    from that obtain k where k: "k < length (drop b rest)" "c = drop b rest ! k"
      by (auto simp: in_set_conv_nth)
    then have kl: "k < length p" using cross p(2) by simp
    have "b + k < length rest" using k(1) by simp
    then have "c = ?s ! (b + k)" using k(2) b_le by (simp add: nth_append)
    also have "\<dots> = p ! k" using sw kl by (rule startsWith_drop_nth)
    finally have "c \<in> set p" using kl by simp
    with p(3) show ?thesis by (auto simp: isWhiteSpace_def)
  qed
  have "trim (take b ?s) = trim (take b rest)" using b_le by simp
  also have "\<dots> = trim (take b rest @ drop b rest)"
    using trim_append_whitespace[of "drop b rest" "take b rest"] ws by simp
  finally have block: "trim (take b ?s) = trim rest" by simp
  have "length (drop (b + l) ?s) < 2" using cross by simp
  then have "findBoundary (drop (b + l) ?s) = None" by (rule findBoundary_short)
  then have tail: "processStreamChunk (drop (b + l) ?s) = ([], drop (b + l) ?s)"
    by (simp add: processStreamChunk.simps)
  have "processStreamChunk ?s = ([trim rest], drop (b + l) ?s)"
    by (subst processStreamChunk.simps) (simp only: fb option.case prod.case Let_def block tail ne if_False)
  with ne show ?thesis by simp
qed

subsection \<open>The frame loop of \<open>handleSendMessage\<close>\<close>

text \<open>
  Where the buffer holds a \<open>'\n\n'\<close>, the frame loop cuts there, whatever else the
  buffer holds; and at \<open>done\<close> the read loop does not look at the buffer.
\<close>

lemma boundaryIdx_prefers_LFLF: "indexOf s LFLF = Some n \<Longrightarrow> boundaryIdx s = Some n"
  by (simp add: boundaryIdx_def)

lemma readLoop_done_ignores_rest: "readLoop rest refs [] = readLoop [] refs []"
  by simp

text \<open>
  C2 (earliest-delimiter rule): on a buffer that holds both \<open>'\n\n'\<close> and
  \<open>'\r\n\r\n'\<close>, one splitter step cuts at the delimiter that starts first, and the
  frame is the text before it. \<open>processStreamChunk\<close> does so (\<open>findBoundary_earliest\<close>).
  The frame loop of \<open>handleSendMessage\<close> does not: on a buffer in which a
  \<open>START_ASSISTANT_MESSAGE\<close> frame ends with \<open>'\r\n\r\n'\<close> and a
  \<open>COMPLETE_ASSISTANT_MESSAGE\<close> frame with \<open>'\n\n'\<close>, it cuts at the later \<open>'\n\n'\<close>
  and takes both events as one frame, where \<open>processStreamChunk\<close> cuts two.
\<close>

theorem handleSendMessage_boundary_not_earliest:
  "indexOf (frame_start_a1 @ CRLFCRLF @ frame_complete_a1 @ LFLF) CRLFCRLF
     = Some (length frame_start_a1)
   \<and> boundaryIdx (frame_start_a1 @ CRLFCRLF @ frame_complete_a1 @ LFLF)
     = Some (length frame_start_a1 + 4 + length frame_complete_a1)
   \<and> frameLoop (frame_start_a1 @ CRLFCRLF @ frame_complete_a1 @ LFLF) initialRefs
     = Some ([], initialRefs, [], [frame_start_a1 @ CRLFCRLF @ frame_complete_a1])
   \<and> findBoundary (frame_start_a1 @ CRLFCRLF @ frame_complete_a1 @ LFLF)
     = Some (length frame_start_a1, 4)
   \<and> fst (processStreamChunk (frame_start_a1 @ CRLFCRLF @ frame_complete_a1 @ LFLF))
     = [frame_start_a1, frame_complete_a1]"
  by code_simp

text \<open>
  C1 (chunk-boundary invariance): however a stream is cut into chunks, the splitter
  yields the frames of the uncut stream. \<open>handleSubmit\<close> with \<open>processStreamChunk\<close>
  does (\<open>handleSubmit_blocks_chunk_invariant\<close>). The read loop of
  \<open>handleSendMessage\<close> does not: the stream of the two events above yields one frame
  (which fails to parse, so nothing is dispatched) when it arrives whole, and the
  two frames with their two actions when the chunk boundary falls before the final
  \<open>'\n\n'\<close>.
\<close>

theorem handleSendMessage_frames_depend_on_chunking:
  "readLoop [] initialRefs [frame_start_a1 @ CRLFCRLF @ frame_complete_a1 @ LFLF]
     = Some (initialRefs, [], [frame_start_a1 @ CRLFCRLF @ frame_complete_a1])
   \<and> readLoop [] initialRefs [frame_start_a1 @ CRLFCRLF @ frame_complete_a1, LFLF]
     = Some (initialRefs,
             [START_ASSISTANT_MESSAGE ''a1'' (Some ''Assistant''),
              COMPLETE_ASSISTANT_MESSAGE ''a1''],
             [frame_start_a1, frame_complete_a1])
   \<and> handleSubmit_blocks [] [frame_start_a1 @ CRLFCRLF @ frame_complete_a1 @ LFLF]
     = [frame_start_a1, frame_complete_a1]
   \<and> handleSubmit_blocks [] [frame_start_a1 @ CRLFCRLF @ frame_complete_a1, LFLF]
     = [frame_start_a1, frame_complete_a1]"
  by code_simp

text \<open>
  The \<open>break\<close> on an error event makes the frames depend on the chunking as well,
  with one kind of delimiter only: a frame behind the error event is read when a
  later chunk arrives, and never when it came in the same chunk.
\<close>

lemma readLoop_break_chunk_dependent:
  "readLoop [] initialRefs [frame_server_error @ LFLF @ frame_start_a1 @ LFLF]
     = Some (initialRefs, [SET_ERROR ''boom''], [frame_server_error])
   \<and> readLoop [] initialRefs [frame_server_error @ LFLF, frame_start_a1 @ LFLF]
     = Some (\<lparr>activeMessageId = ''a1'', currentAssistantJsonBuffer = []\<rparr>,
             [SET_ERROR ''boom'', START_ASSISTANT_MESSAGE ''a1'' (Some ''Assistant''),
              COMPLETE_ASSISTANT_MESSAGE ''a1''],
             [frame_server_error, frame_start_a1])"
  by code_simp

text \<open>
  C8 (end-of-stream flush): when the transport signals \<open>done\<close> and the rest of the
  buffer is not empty, the rest is processed once more with a delimiter appended,
  so that a last frame without its blank line is still dispatched. \<open>handleSubmit\<close>
  does so (\<open>handleSubmit_flush\<close>). \<open>handleSendMessage\<close> has no such step: a \<open>ServerError\<close> frame that ends
  the stream without a delimiter is never decoded (no \<open>SET_ERROR\<close> is dispatched),
  where \<open>handleSubmit\<close> hands on both frames.
\<close>

theorem handleSendMessage_drops_unterminated_final_frame:
  "readLoop [] initialRefs [frame_start_a1 @ LFLF, frame_server_error]
     = Some (\<lparr>activeMessageId = ''a1'', currentAssistantJsonBuffer = []\<rparr>,
             [START_ASSISTANT_MESSAGE ''a1'' (Some ''Assistant''),
              COMPLETE_ASSISTANT_MESSAGE ''a1''],
             [frame_start_a1])
   \<and> handleSubmit_blocks [] [frame_start_a1 @ LFLF, frame_server_error]
     = [frame_start_a1, frame_server_error]"
  by code_simp

section \<open>The reducer\<close>

subsection \<open>The guard on the active message\<close>

lemma APPEND_DELTA_guard:
  "loadingMessageId s \<noteq> Some i \<Longrightarrow> chatReducer now s (APPEND_DELTA i delta) = s"
  by (simp split: option.splits)

lemma UPDATE_AGENT_NAME_guard:
  "loadingMessageId s \<noteq> Some i \<Longrightarrow> chatReducer now s (UPDATE_AGENT_NAME i name) = s"
  by (simp split: option.splits)

text \<open>
  C4 (guard law): an append or a content or agent-name update whose target is not
  the loading message leaves the state unchanged, for \<open>APPEND_DELTA\<close>,
  \<open>UPDATE_ASSISTANT_JSON_CONTENT\<close> and \<open>UPDATE_AGENT_NAME\<close> alike. The first and the
  last have the guard (the two lemmas above); \<open>UPDATE_ASSISTANT_JSON_CONTENT\<close> only
  asks that the message exists. With \<open>a2\<close> the loading message, an \<open>APPEND_DELTA\<close>
  to \<open>a1\<close> is rejected, and an \<open>UPDATE_ASSISTANT_JSON_CONTENT\<close> to \<open>a1\<close> replaces its
  content.
\<close>

theorem UPDATE_ASSISTANT_JSON_CONTENT_unguarded:
  "loadingMessageId (dispatchAll initialState
      (stamp 1 [START_ASSISTANT_MESSAGE ''a1'' None, START_ASSISTANT_MESSAGE ''a2'' None]))
     = Some ''a2''
   \<and> map_option content
       (messages (dispatchAll initialState
          (stamp 1 [START_ASSISTANT_MESSAGE ''a1'' None, START_ASSISTANT_MESSAGE ''a2'' None,
                    APPEND_DELTA ''a1'' ''late''])) ''a1'')
     = Some []
   \<and> map_option content
       (messages (dispatchAll initialState
          (stamp 1 [START_ASSISTANT_MESSAGE ''a1'' None, START_ASSISTANT_MESSAGE ''a2'' None,
                    UPDATE_ASSISTANT_JSON_CONTENT ''a1'' ''late'' False None])) ''a1'')
     = Some ''late''"
  by code_simp

subsection \<open>The order of the messages\<close>

lemma chatReducer_order:
  "messageOrder (chatReducer now s a) =
     (if a = RESET_CHAT then []
      else case appendedId now a of None \<Rightarrow> messageOrder s | Some i \<Rightarrow> messageOrder s @ [i])"
  by (cases a) (auto simp: initialState_def Let_def split: option.splits)

lemma dispatchAll_distinct:
  "distinct (messageOrder s) \<Longrightarrow> freshIds s acts \<Longrightarrow>
   distinct (messageOrder (dispatchAll s acts))"
proof (induction acts arbitrary: s)
  case Nil
  then show ?case by simp
next
  case (Cons na acts)
  obtain now a where na: "na = (now, a)" by (cases na)
  from Cons.prems have "distinct (messageOrder (chatReducer now s a))"
    by (auto simp: na chatReducer_order split: option.splits)
  moreover from Cons.prems have "freshIds (chatReducer now s a) acts" by (simp add: na)
  ultimately show ?case using Cons.IH by (simp add: na)
qed

text \<open>
  Two \<open>ADD_USER_MESSAGE\<close> actions with the same id leave the id twice in
  \<open>messageOrder\<close>: the reducer appends without looking.
\<close>

theorem repeated_id_repeats_in_order:
  "\<not> distinct (messageOrder (dispatchAll initialState
      (stamp 1 [ADD_USER_MESSAGE \<lparr>msg_id = ''m1'', role = User, content = ''hello'',
                                  agentName = None, msg_isLoading = None\<rparr>,
                ADD_USER_MESSAGE \<lparr>msg_id = ''m1'', role = User, content = ''hello again'',
                                  agentName = None, msg_isLoading = None\<rparr>])))"
  by code_simp

text \<open>
  C9 (order uniqueness), amended: from the initial state, a sequence of actions in
  which every \<open>ADD_USER_MESSAGE\<close>, \<open>START_ASSISTANT_MESSAGE\<close> and \<open>SET_ERROR\<close> brings
  an id that is not yet in \<open>messageOrder\<close> leaves every id at most once in
  \<open>messageOrder\<close>.
\<close>

theorem order_distinct_for_fresh_ids:
  "freshIds initialState acts \<Longrightarrow> distinct (messageOrder (dispatchAll initialState acts))"
  by (rule dispatchAll_distinct) (simp_all add: initialState_def)

text \<open>A run with a user message, an assistant message, an error and a second user message.\<close>

theorem order_distinct_for_fresh_ids_witness:
  "freshIds initialState
     [(1, ADD_USER_MESSAGE (newUserMessage 1 ''hello'')),
      (2, START_ASSISTANT_MESSAGE ''a1'' None),
      (3, SET_ERROR ''boom''),
      (4, ADD_USER_MESSAGE (newUserMessage 4 ''hello again''))]
   \<and> distinct (messageOrder (dispatchAll initialState
     [(1, ADD_USER_MESSAGE (newUserMessage 1 ''hello'')),
      (2, START_ASSISTANT_MESSAGE ''a1'' None),
      (3, SET_ERROR ''boom''),
      (4, ADD_USER_MESSAGE (newUserMessage 4 ''hello again''))]))"
proof -
  have h: "freshIds initialState
     [(1, ADD_USER_MESSAGE (newUserMessage 1 ''hello'')),
      (2, START_ASSISTANT_MESSAGE ''a1'' None),
      (3, SET_ERROR ''boom''),
      (4, ADD_USER_MESSAGE (newUserMessage 4 ''hello again''))]"
    by code_simp
  show ?thesis using h order_distinct_for_fresh_ids[OF h] by simp
qed

subsection \<open>A second start while a message is active\<close>

text \<open>
  After the frames of \<open>START_ASSISTANT_MESSAGE\<close> for \<open>a1\<close> and then for \<open>a2\<close>, the
  controller has dispatched the two starts and nothing else, and \<open>a1\<close> still has
  \<open>isLoading = true\<close>: it was not completed.
\<close>

theorem second_start_leaves_first_loading:
  "frameLoop (frame_start_a1 @ LFLF @ frame_start_a2 @ LFLF) initialRefs
     = Some ([], \<lparr>activeMessageId = ''a2'', currentAssistantJsonBuffer = []\<rparr>,
             [START_ASSISTANT_MESSAGE ''a1'' (Some ''Assistant''),
              START_ASSISTANT_MESSAGE ''a2'' (Some ''Assistant'')],
             [frame_start_a1, frame_start_a2])
   \<and> map_option msg_isLoading
       (messages (dispatchAll initialState
          (stamp 1 [START_ASSISTANT_MESSAGE ''a1'' (Some ''Assistant''),
                    START_ASSISTANT_MESSAGE ''a2'' (Some ''Assistant'')])) ''a1'')
     = Some (Some True)"
  by code_simp

text \<open>
  C5 (overlapping starts), amended: while a message X is in the store, processing a
  \<open>START_ASSISTANT_MESSAGE\<close> with another id Y dispatches that start alone. X is
  left exactly as it was, content and \<open>isLoading\<close> flag included (a loading X stays
  loading); Y is added with empty content and \<open>isLoading = true\<close>, and Y is what
  \<open>activeMessageId\<close>, \<open>loadingMessageId\<close> and \<open>currentAssistantMessageId\<close> name.
\<close>

theorem second_start_keeps_first_message:
  assumes "messages s x = Some mx" and "x \<noteq> y"
  shows "handleParsedEvent refs (startEvent y)
           = Some (\<lparr>activeMessageId = y, currentAssistantJsonBuffer = []\<rparr>,
                   [START_ASSISTANT_MESSAGE y (Some ''Assistant'')], False, False)
         \<and> messages (chatReducer now s (START_ASSISTANT_MESSAGE y name)) x = Some mx
         \<and> messages (chatReducer now s (START_ASSISTANT_MESSAGE y name)) y
           = Some \<lparr>msg_id = y, role = Assistant, content = [],
                   agentName = Some (or_default name ''Assistant''),
                   msg_isLoading = Some True\<rparr>
         \<and> loadingMessageId (chatReducer now s (START_ASSISTANT_MESSAGE y name)) = Some y
         \<and> currentAssistantMessageId (chatReducer now s (START_ASSISTANT_MESSAGE y name))
           = Some y"
  using assms by (simp add: handleParsedEvent_def startEvent_def)

text \<open>With X = \<open>x\<close> loading and Y = \<open>y\<close>: \<open>x\<close> is still loading after the second start.\<close>

theorem second_start_keeps_first_message_witness:
  "messages (chatReducer 1 initialState (START_ASSISTANT_MESSAGE ''x'' None)) ''x''
     = Some \<lparr>msg_id = ''x'', role = Assistant, content = [],
             agentName = Some ''Assistant'', msg_isLoading = Some True\<rparr>
   \<and> messages (chatReducer 2 (chatReducer 1 initialState (START_ASSISTANT_MESSAGE ''x'' None))
                  (START_ASSISTANT_MESSAGE ''y'' (Some ''Assistant''))) ''x''
     = Some \<lparr>msg_id = ''x'', role = Assistant, content = [],
             agentName = Some ''Assistant'', msg_isLoading = Some True\<rparr>"
proof -
  have h: "messages (chatReducer 1 initialState (START_ASSISTANT_MESSAGE ''x'' None)) ''x''
     = Some \<lparr>msg_id = ''x'', role = Assistant, content = [],
             agentName = Some ''Assistant'', msg_isLoading = Some True\<rparr>"
    by (simp add: initialState_def)
  have d: "''x'' \<noteq> ''y''" by simp
  show ?thesis
    using h second_start_keeps_first_message[OF h d, of initialRefs 2 "Some ''Assistant''"]
    by simp
qed

section \<open>The controller\<close>

text \<open>
  C10 (\<open>[DONE]\<close> sentinel): a frame whose data value, trimmed, is empty or is
  \<open>[DONE]\<close> in any letter casing dispatches nothing, leaves the refs as they are,
  does not leave the frame loop and does not reach the \<open>catch\<close> that reports a
  frame that failed to parse.
\<close>

theorem done_sentinel_dispatches_nothing:
  "trim (drop 5 rawEventData) = [] \<or> toUpperCase (trim (drop 5 rawEventData)) = ''[DONE]'' \<Longrightarrow>
   handleRawEventData refs rawEventData = Some (refs, [], False, False)"
  by (auto simp: handleRawEventData_def Let_def)

text \<open>The sentinel in mixed case, met while \<open>a1\<close> is active and its buffer is not empty.\<close>

theorem done_sentinel_dispatches_nothing_witness:
  "toUpperCase (trim (drop 5 ''data: [Done]'')) = ''[DONE]''
   \<and> handleRawEventData \<lparr>activeMessageId = ''a1'', currentAssistantJsonBuffer = ''{''\<rparr>
        ''data: [Done]''
     = Some (\<lparr>activeMessageId = ''a1'', currentAssistantJsonBuffer = ''{''\<rparr>, [], False, False)"
proof -
  have h: "toUpperCase (trim (drop 5 ''data: [Done]'')) = ''[DONE]''" by code_simp
  then have h': "trim (drop 5 ''data: [Done]'') = []
      \<or> toUpperCase (trim (drop 5 ''data: [Done]'')) = ''[DONE]''" by (rule disjI2)
  show ?thesis
    using h done_sentinel_dispatches_nothing[OF h',
        of "\<lparr>activeMessageId = ''a1'', currentAssistantJsonBuffer = ''{''\<rparr>"]
    by simp
qed

text \<open>
  C3 (partial JSON, end to end): after the user submits \<open>show u9s players\<close>, the
  stream \<open>START_ASSISTANT_MESSAGE(a1)\<close>, a delta \<open>{"agent_response_text": "Here\<close>,
  a delta \<open> are 3 players"}\<close>, \<open>COMPLETE_ASSISTANT_MESSAGE(a1)\<close> (the deltas as
  \<open>RawResponsesStreamEvent\<close> frames, the stream cut into two chunks between them)
  leaves message \<open>a1\<close> with the content \<open>Here are 3 players\<close>, the extracted field
  and not the raw deltas, and with \<open>isLoading = false\<close>.
\<close>

theorem partial_json_replaced_by_extracted_text:
  "handleSendMessage 1 initialState [] ''show u9s players''
       [frame_start_a1 @ LFLF @ frame_delta_here @ LFLF,
        frame_delta_players @ LFLF @ frame_complete_a1 @ LFLF]
     = Some [ADD_USER_MESSAGE (newUserMessage 1 ''show u9s players''),
             START_ASSISTANT_MESSAGE ''a1'' (Some ''Assistant''),
             UPDATE_ASSISTANT_JSON_CONTENT ''a1'' ''Here are 3 players'' False None,
             UPDATE_ASSISTANT_JSON_CONTENT ''a1'' ''Here are 3 players'' False None,
             COMPLETE_ASSISTANT_MESSAGE ''a1'']
   \<and> messages
       (dispatchAll initialState
          (stamp 1 [ADD_USER_MESSAGE (newUserMessage 1 ''show u9s players''),
                    START_ASSISTANT_MESSAGE ''a1'' (Some ''Assistant''),
                    UPDATE_ASSISTANT_JSON_CONTENT ''a1'' ''Here are 3 players'' False None,
                    UPDATE_ASSISTANT_JSON_CONTENT ''a1'' ''Here are 3 players'' False None,
                    COMPLETE_ASSISTANT_MESSAGE ''a1''])) ''a1''
     = Some \<lparr>msg_id = ''a1'', role = Assistant, content = ''Here are 3 players'',
             agentName = Some ''Assistant'', msg_isLoading = Some False\<rparr>"
  by code_simp

text \<open>
  After \<open>SET_ERROR\<close> the reducer rejects every \<open>COMPLETE_ASSISTANT_MESSAGE\<close>: both ids
  its guard compares with have just been cleared.
\<close>

lemma SET_ERROR_then_COMPLETE_rejected:
  "chatReducer now' (chatReducer now s (SET_ERROR e)) (COMPLETE_ASSISTANT_MESSAGE i)
     = chatReducer now s (SET_ERROR e)"
  by (simp add: Let_def)

text \<open>
  C6 (error event): a \<open>ServerError\<close> or \<open>AgentErrorEvent\<close> frame adds one assistant
  message with an error prefix, completes the active message (its \<open>isLoading\<close>
  becomes false) and leaves the store's \<open>isLoading\<close> false. The controller
  dispatches \<open>SET_ERROR\<close> and then \<open>COMPLETE_ASSISTANT_MESSAGE\<close> for the active
  message, and once more at the end of the stream, but the reducer rejects both
  (the lemma above): after \<open>START_ASSISTANT_MESSAGE(a1)\<close> and a \<open>ServerError\<close>,
  message \<open>a1\<close> still has \<open>isLoading = true\<close>.
\<close>

theorem error_event_leaves_active_message_loading:
  "handleSendMessage 1 initialState [] ''show u9s players''
       [frame_start_a1 @ LFLF, frame_server_error @ LFLF]
     = Some [ADD_USER_MESSAGE (newUserMessage 1 ''show u9s players''),
             START_ASSISTANT_MESSAGE ''a1'' (Some ''Assistant''),
             SET_ERROR ''boom'',
             COMPLETE_ASSISTANT_MESSAGE ''a1'',
             COMPLETE_ASSISTANT_MESSAGE ''a1'']
   \<and> map_option msg_isLoading
       (messages
          (dispatchAll initialState
             (stamp 1 [ADD_USER_MESSAGE (newUserMessage 1 ''show u9s players''),
                       START_ASSISTANT_MESSAGE ''a1'' (Some ''Assistant''),
                       SET_ERROR ''boom'',
                       COMPLETE_ASSISTANT_MESSAGE ''a1'',
                       COMPLETE_ASSISTANT_MESSAGE ''a1''])) ''a1'')
     = Some (Some True)"
  by code_simp

subsection \<open>A submission while a message is streaming\<close>


text \<open>
  In \<open>handleSendMessage\<close> a submission that is accepted while a message still
  streams (the store is not loading once an earlier message of the stream was
  completed) aborts nothing: the earlier stream goes on, and its next update still
  rewrites \<open>a1\<close>, which stays loading.
\<close>

lemma accepted_submission_leaves_old_stream_running:
  "handleSendMessage 2 second_message_streaming [] ''show u10s players'' []
     = Some [ADD_USER_MESSAGE (newUserMessage 2 ''show u10s players'')]
   \<and> messages
       (dispatchAll second_message_streaming
          (stamp 2 [ADD_USER_MESSAGE (newUserMessage 2 ''show u10s players''),
                    UPDATE_ASSISTANT_JSON_CONTENT ''a1'' ''Here are 3 players'' False None])) ''a1''
     = Some \<lparr>msg_id = ''a1'', role = Assistant, content = ''Here are 3 players'',
             agentName = Some ''Assistant'', msg_isLoading = Some True\<rparr>"
  by code_simp



end
